theory Spec2Isabelle
  imports Complex_Main "HOL-Library.Sublist"
begin

section \<open>Values and strings of the summarizer\<close>

text \<open>
  The transcript summarizer (\<^verbatim>\<open>dist/.opencode/agent/transcript-summarizer.js\<close>) is a pure
  function of three arguments. The tool schema declares them as strings, the last one
  optional, but every function of the file guards against other values, so an argument is
  a JavaScript value here: \<open>Undefined\<close> is a missing argument. A string is a list of
  code units below 256 (ASCII and Latin-1), one \<open>char\<close> each, so that \<^verbatim>\<open>length\<close> counts
  them as JavaScript does.
\<close>

datatype jsval = Undefined | Null | Bool bool | Num int | Str string

text \<open>\<^verbatim>\<open>!v\<close> is the negation of \<open>truthy v\<close>.\<close>

fun truthy :: "jsval \<Rightarrow> bool" where
  "truthy Undefined = False"
| "truthy Null = False"
| "truthy (Bool b) = b"
| "truthy (Num n) = (n \<noteq> 0)"
| "truthy (Str s) = (s \<noteq> [])"

fun isString :: "jsval \<Rightarrow> bool" where
  "isString (Str s) = True"
| "isString v = False"

fun strOf :: "jsval \<Rightarrow> string" where
  "strOf (Str s) = s"
| "strOf v = []"

text \<open>
  The white space and line terminators that \<^verbatim>\<open>String.prototype.trim\<close> strips, among the
  code units below 256: tab, line feed, vertical tab, form feed, carriage return, space
  and the no-break space U+00A0.
\<close>

definition isSpace :: "char \<Rightarrow> bool" where
  "isSpace c = (c = CHR 0x09 \<or> c = CHR 0x0A \<or> c = CHR 0x0B \<or> c = CHR 0x0C
      \<or> c = CHR 0x0D \<or> c = CHR '' '' \<or> c = CHR 0xA0)"

definition trim :: "string \<Rightarrow> string" where
  "trim s = rev (dropWhile isSpace (rev (dropWhile isSpace s)))"

text \<open>
  \<^verbatim>\<open>toLowerCase\<close> on these code units: the letters A to Z and the Latin-1 capitals U+00C0
  to U+00DE, without the multiplication sign U+00D7, move up by 32; nothing else changes.
\<close>

definition toLowerChar :: "char \<Rightarrow> char" where
  "toLowerChar c = (let n = (of_char c :: nat) in
     if (65 \<le> n \<and> n \<le> 90) \<or> (192 \<le> n \<and> n \<le> 222 \<and> n \<noteq> 215)
     then char_of (n + 32) else c)"

definition toLowerCase :: "string \<Rightarrow> string" where
  "toLowerCase s = map toLowerChar s"

text \<open>\<^verbatim>\<open>s.includes(t)\<close>: \<open>t\<close> occurs in \<open>s\<close> as a contiguous substring.\<close>

fun includesStr :: "string \<Rightarrow> string \<Rightarrow> bool" where
  "includesStr [] t = (t = [])"
| "includesStr (c # cs) t = (prefix t (c # cs) \<or> includesStr cs t)"

definition endsWith :: "string \<Rightarrow> string \<Rightarrow> bool" where
  "endsWith s t = suffix t s"

text \<open>\<^verbatim>\<open>s.split(d)\<close> for a one-character separator: one piece more than separators.\<close>

fun splitOn :: "char \<Rightarrow> string \<Rightarrow> string list" where
  "splitOn d [] = [[]]"
| "splitOn d (c # cs) =
     (if c = d then [] # splitOn d cs
      else (let r = splitOn d cs in (c # hd r) # tl r))"

definition isTerminator :: "char \<Rightarrow> bool" where
  "isTerminator c = (c = CHR ''.'' \<or> c = CHR ''!'' \<or> c = CHR ''?'')"

text \<open>
  \<^verbatim>\<open>s.split(/[.!?]+/)\<close>: the pieces between maximal runs of terminators. \<open>cur\<close> is the
  piece being read, reversed; \<open>inRun\<close> says that the last character was a terminator.
\<close>

fun splitRuns :: "string \<Rightarrow> bool \<Rightarrow> string \<Rightarrow> string list" where
  "splitRuns cur inRun [] = [rev cur]"
| "splitRuns cur inRun (c # cs) =
     (if isTerminator c
      then (if inRun then splitRuns [] True cs else rev cur # splitRuns [] True cs)
      else splitRuns (c # cur) False cs)"

definition splitSentences :: "string \<Rightarrow> string list" where
  "splitSentences s = splitRuns [] False s"

fun joinWith :: "string \<Rightarrow> string list \<Rightarrow> string" where
  "joinWith sep [] = []"
| "joinWith sep [x] = x"
| "joinWith sep (x # y # ys) = x @ sep @ joinWith sep (y # ys)"

text \<open>Decimal rendering of a number in a template string.\<close>

fun showNat :: "nat \<Rightarrow> string" where
  "showNat n = (if n < 10 then [char_of (48 + n)]
     else showNat (n div 10) @ [char_of (48 + n mod 10)])"

declare showNat.simps [simp del]

section \<open>Key points\<close>

record ScoredSentence =
  sentence :: string
  score :: int
  index :: nat

definition keyPointIndicators :: "string list" where
  "keyPointIndicators =
    [''important'', ''key'', ''main'', ''primary'', ''essential'', ''crucial'', ''critical'',
     ''significant'', ''fundamental'', ''core'', ''central'', ''major'', ''vital'',
     ''paramount'',
     ''first'', ''second'', ''third'', ''fourth'', ''fifth'', ''next'', ''then'', ''after'',
     ''before'', ''finally'', ''lastly'', ''in conclusion'', ''to conclude'',
     ''to summarize'', ''in summary'',
     ''remember'', ''note that'', ''keep in mind'', ''the point is'',
     ''here'' @ [CHR 0x27] @ ''s the thing'', ''what matters'',
     ''what'' @ [CHR 0x27] @ ''s important'', ''pay attention'', ''focus on'',
     ''let'' @ [CHR 0x27] @ ''s talk about'', ''we'' @ [CHR 0x27] @ ''ll cover'',
     ''we'' @ [CHR 0x27] @ ''ll discuss'', ''we'' @ [CHR 0x27] @ ''ll explore'',
     ''the goal is'', ''the objective is'', ''the purpose is'', ''the aim is'',
     ''you need to'', ''you should'', ''make sure'', ''ensure that'',
     ''don'' @ [CHR 0x27] @ ''t forget'']"

text \<open>The filtered sentences of lines 11 to 14.\<close>

definition keyPointSentences :: "string \<Rightarrow> string list" where
  "keyPointSentences transcript =
     filter (\<lambda>s. length s > 10 \<and> length s < 200) (map trim (splitSentences transcript))"

definition keywordMatches :: "string \<Rightarrow> nat" where
  "keywordMatches s =
     length (filter (\<lambda>indicator. includesStr (toLowerCase s) indicator) keyPointIndicators)"

text \<open>
  \<open>positionRatio\<close> is a quotient of two integers below \<open>2^53\<close>, compared with the
  decimal literals 0.2, 0.4, 0.6 and 0.8. A correctly rounded quotient of integers of
  this size lies on the same side of such a literal's double as the exact quotient lies
  of the decimal fraction, so the comparisons are taken over the rationals.
\<close>

definition positionRatio :: "nat \<Rightarrow> nat \<Rightarrow> rat" where
  "positionRatio i n = of_nat i / of_nat n"

definition positionBonus :: "rat \<Rightarrow> int" where
  "positionBonus r =
     (if r < 2 / 10 then 2
      else if r > 8 / 10 then 2
      else if r > 4 / 10 \<and> r < 6 / 10 then 1
      else 0)"

definition wordCount :: "string \<Rightarrow> nat" where
  "wordCount s = length (splitOn CHR '' '' s)"

definition lengthBonus :: "string \<Rightarrow> int" where
  "lengthBonus s = (if wordCount s \<ge> 8 \<and> wordCount s \<le> 25 then 1 else 0)"

text \<open>The callback of \<^verbatim>\<open>sentences.map\<close> (lines 36 to 55); \<open>n\<close> is \<^verbatim>\<open>sentences.length\<close>.\<close>

definition scoreSentence :: "nat \<Rightarrow> string \<Rightarrow> nat \<Rightarrow> ScoredSentence" where
  "scoreSentence n s i =
     \<lparr> sentence = s,
       score = int (keywordMatches s) * 3 + positionBonus (positionRatio i n) + lengthBonus s,
       index = i \<rparr>"

definition scoredSentences :: "string list \<Rightarrow> ScoredSentence list" where
  "scoredSentences sentences =
     map (\<lambda>(s, i). scoreSentence (length sentences) s i)
         (zip sentences [0 ..< length sentences])"

text \<open>The comparator of line 57: negative when \<open>a\<close> goes before \<open>b\<close>.\<close>

definition compareScored :: "ScoredSentence \<Rightarrow> ScoredSentence \<Rightarrow> int" where
  "compareScored a b =
     (if score a \<noteq> score b then score b - score a else int (index a) - int (index b))"

text \<open>
  \<^verbatim>\<open>Array.prototype.sort\<close> is a stable sort by the comparator: an insertion sort that
  puts an element before the first one it does not come after.
\<close>

fun insertSorted :: "ScoredSentence \<Rightarrow> ScoredSentence list \<Rightarrow> ScoredSentence list" where
  "insertSorted x [] = [x]"
| "insertSorted x (y # ys) =
     (if compareScored x y \<le> 0 then x # y # ys else y # insertSorted x ys)"

fun sortScored :: "ScoredSentence list \<Rightarrow> ScoredSentence list" where
  "sortScored [] = []"
| "sortScored (x # xs) = insertSorted x (sortScored xs)"

text \<open>
  The selection loop of lines 63 to 73. The state is \<^verbatim>\<open>selectedSentences\<close> and
  \<^verbatim>\<open>usedSentenceIndices\<close>, a set that keeps insertion order.
\<close>

definition tooClose :: "nat list \<Rightarrow> ScoredSentence \<Rightarrow> bool" where
  "tooClose used item = list_ex (\<lambda>prevIndex. \<bar>int (index item) - int prevIndex\<bar> < 3) used"

definition setAdd :: "nat \<Rightarrow> nat list \<Rightarrow> nat list" where
  "setAdd i used = (if i \<in> set used then used else used @ [i])"

definition selectStep :: "string list \<times> nat list \<Rightarrow> ScoredSentence \<Rightarrow> string list \<times> nat list" where
  "selectStep st item =
     (if \<not> tooClose (snd st) item \<and> length (fst st) < 5
      then (fst st @ [sentence item], setAdd (index item) (snd st))
      else st)"

definition selectLoop :: "ScoredSentence list \<Rightarrow> string list \<times> nat list" where
  "selectLoop items = foldl selectStep ([], []) items"

definition greedySelection :: "string list \<Rightarrow> string list \<times> nat list" where
  "greedySelection sentences = selectLoop (sortScored (scoredSentences sentences))"

text \<open>
  The fallback of lines 75 to 86. \<^verbatim>\<open>arr.indexOf\<close> gives the first position of a value,
  \<^verbatim>\<open>sentences[idx]\<close> is undefined out of range, and \<^verbatim>\<open>filter(Boolean)\<close> drops undefined
  and empty strings.
\<close>

fun indexOf :: "int list \<Rightarrow> int \<Rightarrow> int" where
  "indexOf [] x = -1"
| "indexOf (y # ys) x =
     (if y = x then 0 else (let r = indexOf ys x in if r < 0 then -1 else r + 1))"

definition removeDuplicates :: "int list \<Rightarrow> int list" where
  "removeDuplicates arr =
     map fst (filter (\<lambda>(idx, pos). indexOf arr idx = int pos) (zip arr [0 ..< length arr]))"

definition fallbackIndices :: "nat \<Rightarrow> int list" where
  "fallbackIndices totalSentences =
     removeDuplicates
       [0,
        \<lfloor>(of_nat totalSentences :: rat) * (25 / 100)\<rfloor>,
        \<lfloor>(of_nat totalSentences :: rat) * (5 / 10)\<rfloor>,
        \<lfloor>(of_nat totalSentences :: rat) * (75 / 100)\<rfloor>,
        int totalSentences - 1]"

definition elemAt :: "string list \<Rightarrow> int \<Rightarrow> string option" where
  "elemAt xs i = (if 0 \<le> i \<and> i < int (length xs) then Some (xs ! nat i) else None)"

fun filterBoolean :: "string option list \<Rightarrow> string list" where
  "filterBoolean [] = []"
| "filterBoolean (None # xs) = filterBoolean xs"
| "filterBoolean (Some s # xs) = (if s = [] then filterBoolean xs else s # filterBoolean xs)"

definition fallbackSelection :: "string list \<Rightarrow> string list" where
  "fallbackSelection sentences =
     filterBoolean (map (elemAt sentences) (fallbackIndices (length sentences)))"

text \<open>\<^verbatim>\<open>selectedSentences\<close> as it stands at line 87, after the loop and the fallback.\<close>

definition selectedSentences :: "string list \<Rightarrow> string list" where
  "selectedSentences sentences =
     (let selected = fst (greedySelection sentences)
      in if length selected = 0 then selected @ fallbackSelection sentences else selected)"

definition numbered :: "string list \<Rightarrow> string list" where
  "numbered points =
     map (\<lambda>(point, i). showNat (i + 1) @ ''. '' @ point) (zip points [0 ..< length points])"

definition renderKeyPoints :: "string list \<Rightarrow> string" where
  "renderKeyPoints points =
     ''## Key Points'' @ [CHR 0x0A, CHR 0x0A] @ joinWith [CHR 0x0A] (numbered points)"

definition generateKeyPointsSummary :: "jsval \<Rightarrow> jsval \<Rightarrow> string" where
  "generateKeyPointsSummary transcript videoTitle =
     (if \<not> truthy transcript \<or> \<not> isString transcript
      then ''Unable to generate summary: invalid transcript''
      else if \<not> truthy videoTitle \<or> \<not> isString videoTitle
      then ''Unable to generate summary: invalid video title''
      else (let sentences = keyPointSentences (strOf transcript)
        in if length sentences = 0
           then ''Unable to extract meaningful sentences from transcript.''
           else (let selected = selectedSentences sentences
             in if length selected = 0
                then trim (joinWith ''. '' (take 3 sentences)) @ ''.''
                else renderKeyPoints selected)))"

section \<open>Detailed summary\<close>

text \<open>
  The products of a count with 0.2, 0.3 and 0.4 are rounded by \<^verbatim>\<open>Math.floor\<close> or
  \<^verbatim>\<open>Math.ceil\<close> at once. For counts below \<open>2^53\<close> the rounded double product has the
  floor and the ceiling of the exact product, so these are taken over the rationals too.
\<close>

definition targetLength :: "nat \<Rightarrow> int" where
  "targetLength transcriptLength =
     (if transcriptLength < 500 then \<lfloor>(of_nat transcriptLength :: rat) * (4 / 10)\<rfloor>
      else if transcriptLength < 2000
      then min 400 \<lfloor>(of_nat transcriptLength :: rat) * (3 / 10)\<rfloor>
      else min 500 \<lfloor>(of_nat transcriptLength :: rat) * (2 / 10)\<rfloor>)"

definition detailedSentences :: "string \<Rightarrow> string list" where
  "detailedSentences transcript =
     filter (\<lambda>s. length (trim s) > 10) (splitOn CHR ''.'' transcript)"

text \<open>\<^verbatim>\<open>xs.slice(a, b)\<close> for \<open>0 \<le> a\<close> and \<open>0 \<le> b\<close>, and \<^verbatim>\<open>xs.slice(-k)\<close> for \<open>0 \<le> k\<close>.\<close>

definition slice :: "'a list \<Rightarrow> int \<Rightarrow> int \<Rightarrow> 'a list" where
  "slice xs a b = take (nat b - nat a) (drop (nat a) xs)"

definition sliceLast :: "'a list \<Rightarrow> int \<Rightarrow> 'a list" where
  "sliceLast xs k = (if k = 0 then xs else drop (length xs - nat k) xs)"

definition summarySentences :: "string list \<Rightarrow> string list" where
  "summarySentences sentences =
     (let n = (of_nat (length sentences) :: rat);
          beginning = slice sentences 0 \<lceil>n * (2 / 10)\<rceil>;
          middleStart = \<lfloor>n * (4 / 10)\<rfloor>;
          middle = slice sentences middleStart (middleStart + \<lceil>n * (3 / 10)\<rceil>);
          ending = sliceLast sentences \<lceil>n * (2 / 10)\<rceil>
      in filter (\<lambda>s. length s > 0) (map trim (beginning @ middle @ ending)))"

definition draftSummary :: "string \<Rightarrow> string" where
  "draftSummary transcript = trim (joinWith ''. '' (summarySentences (detailedSentences transcript)))"

text \<open>Lines 126 to 132: the cut to the target length.\<close>

definition truncateSummary :: "int \<Rightarrow> string \<Rightarrow> string" where
  "truncateSummary target summary =
     (if int (length summary) > target * 5
      then (let cut = joinWith '' '' (slice (splitOn CHR '' '' summary) 0 target)
            in if \<not> endsWith cut ''.'' then cut @ ''...'' else cut)
      else summary)"

definition generateDetailedSummary :: "jsval \<Rightarrow> jsval \<Rightarrow> string" where
  "generateDetailedSummary transcript videoTitle =
     (if \<not> truthy transcript \<or> \<not> isString transcript
      then ''Unable to generate summary: invalid transcript''
      else if \<not> truthy videoTitle \<or> \<not> isString videoTitle
      then ''Unable to generate summary: invalid video title''
      else ''## Summary'' @ [CHR 0x0A, CHR 0x0A]
           @ truncateSummary (targetLength (wordCount (strOf transcript)))
               (draftSummary (strOf transcript)))"

section \<open>Guided summary and the tool entry point\<close>

definition generateGuidedSummary :: "jsval \<Rightarrow> jsval \<Rightarrow> jsval \<Rightarrow> string" where
  "generateGuidedSummary transcript videoTitle guidance =
     (if \<not> truthy transcript \<or> \<not> isString transcript
      then ''Unable to generate summary: invalid transcript''
      else if \<not> truthy videoTitle \<or> \<not> isString videoTitle
      then ''Unable to generate summary: invalid video title''
      else if \<not> truthy guidance \<or> \<not> isString guidance
      then ''Unable to generate summary: invalid guidance''
      else (let guidanceLower = toLowerCase (strOf guidance)
        in if includesStr guidanceLower ''brief'' \<or> includesStr guidanceLower ''short''
              \<or> includesStr guidanceLower ''overview''
           then generateKeyPointsSummary transcript videoTitle
           else if includesStr guidanceLower ''detailed''
              \<or> includesStr guidanceLower ''comprehensive''
              \<or> includesStr guidanceLower ''analysis''
           then generateDetailedSummary transcript videoTitle
           else if includesStr guidanceLower ''key'' \<or> includesStr guidanceLower ''points''
              \<or> includesStr guidanceLower ''bullet''
           then generateKeyPointsSummary transcript videoTitle
           else ''## Summary (Based on: '' @ strOf guidance @ '')'' @ [CHR 0x0A, CHR 0x0A]
                @ generateDetailedSummary transcript videoTitle))"

record SummaryResult =
  summary :: string
  summary_type :: string

datatype error = Error string

definition unavailableResult :: SummaryResult where
  "unavailableResult =
     \<lparr> summary = ''No transcript available for this video. The video may not have captions or they may not be accessible through the public API.'',
       summary_type = ''unavailable'' \<rparr>"

text \<open>
  \<open>execute\<close> returns the JSON text of the result record; the model returns the record.
  A truthy transcript that is not a string has no \<^verbatim>\<open>trim\<close> method: the call throws a
  TypeError, which the handler of line 199 wraps into the error the tool fails with.
\<close>

definition execute :: "jsval \<Rightarrow> jsval \<Rightarrow> jsval \<Rightarrow> error + SummaryResult" where
  "execute transcript video_title summary_guidance =
     (if \<not> truthy transcript then Inr unavailableResult
      else if \<not> isString transcript
      then Inl (Error ''Transcript summarizer failed: transcript.trim is not a function'')
      else if trim (strOf transcript) = []
           \<or> includesStr (strOf transcript) ''No transcript available for this video''
      then Inr unavailableResult
      else if truthy summary_guidance
      then Inr \<lparr> summary = generateGuidedSummary transcript video_title summary_guidance,
                 summary_type = ''guided'' \<rparr>
      else Inr \<lparr> summary = generateKeyPointsSummary transcript video_title,
                 summary_type = ''key_points'' \<rparr>)"

text \<open>The label of a returned record; \<open>None\<close> when the call fails.\<close>

definition summaryTypeOf :: "error + SummaryResult \<Rightarrow> string option" where
  "summaryTypeOf r = (case r of Inl e \<Rightarrow> None | Inr res \<Rightarrow> Some (summary_type res))"

section \<open>Notions used to state the properties\<close>

text \<open>
  The selection loop keeps sentences and indices in two containers. \<open>pickStep\<close> is the
  same step on the list of picked items, from which both containers are read back
  (lemma \<open>selectLoop_picked\<close>).
\<close>

definition pickStep :: "ScoredSentence list \<Rightarrow> ScoredSentence \<Rightarrow> ScoredSentence list" where
  "pickStep acc item =
     (if \<not> tooClose (map index acc) item \<and> length acc < 5 then acc @ [item] else acc)"

definition pickedItems :: "ScoredSentence list \<Rightarrow> ScoredSentence list" where
  "pickedItems items = foldl pickStep [] items"

text \<open>Any two different indices of the list are at least 3 apart.\<close>

definition farApart :: "nat list \<Rightarrow> bool" where
  "farApart used = list_all (\<lambda>i. list_all (\<lambda>j. i = j \<or> 3 \<le> \<bar>int i - int j\<bar>) used) used"

text \<open>The order the comparator sorts by: higher score first, then lower index.\<close>

definition before :: "ScoredSentence \<Rightarrow> ScoredSentence \<Rightarrow> bool" where
  "before a b = (score a > score b \<or> (score a = score b \<and> index a < index b))"

text \<open>
  Mode selection as the specification words it: three keyword groups in a fixed order,
  each with its mode, and the guided mode when no group matches.
\<close>

datatype mode = KeyPointsMode | DetailedMode | GuidedMode

definition guidanceGroups :: "(string list \<times> mode) list" where
  "guidanceGroups =
     [([''brief'', ''short'', ''overview''], KeyPointsMode),
      ([''detailed'', ''comprehensive'', ''analysis''], DetailedMode),
      ([''key'', ''points'', ''bullet''], KeyPointsMode)]"

definition selectMode :: "string \<Rightarrow> mode" where
  "selectMode guidance =
     (case find (\<lambda>grp. list_ex (includesStr (toLowerCase guidance)) (fst grp)) guidanceGroups of
        Some grp \<Rightarrow> snd grp
      | None \<Rightarrow> GuidedMode)"

text \<open>
  The score as the specification words it: 3 for each distinct phrase of the keyword list
  that occurs in the sentence when case is ignored, the bonus of the position band, and
  the bonus of the word count.
\<close>

definition specKeywordCount :: "string \<Rightarrow> nat" where
  "specKeywordCount s =
     card {k \<in> set keyPointIndicators. includesStr (toLowerCase s) (toLowerCase k)}"

definition specScore :: "nat \<Rightarrow> nat \<Rightarrow> string \<Rightarrow> int" where
  "specScore n i s =
     3 * int (specKeywordCount s)
     + (let r = (of_nat i / of_nat n :: rat)
        in if r < 1 / 5 then 2 else if r > 4 / 5 then 2
           else if 2 / 5 < r \<and> r < 3 / 5 then 1 else 0)
     + (if 8 \<le> length (splitOn CHR '' '' s) \<and> length (splitOn CHR '' '' s) \<le> 25 then 1 else 0)"

text \<open>The word budget as the specification words it, in whole percents.\<close>

definition specTarget :: "nat \<Rightarrow> nat" where
  "specTarget n =
     (if n < 500 then (40 * n) div 100
      else if n \<le> 1999 then min 400 ((30 * n) div 100)
      else min 500 ((20 * n) div 100))"

text \<open>Sample transcripts: the scenario of the specification, and a four-sentence one.\<close>

definition talk :: string where
  "talk = ''This is important. We discuss three points. First, clarity matters. Second, brevity helps. Finally, remember the main idea.''"

definition lecture :: string where
  "lecture = ''Alpha beta gamma delta. Bravo charlie delta echo. Charlie delta echo golf. This one is important.''"

section \<open>Strings\<close>

lemma includesStr_Nil [simp]: "includesStr s []"
  by (induction s) auto

section \<open>The selection loop\<close>

lemma tooClose_member: "i \<in> set used \<Longrightarrow> index item = i \<Longrightarrow> tooClose used item"
  by (auto simp: tooClose_def list_ex_iff intro!: bexI [of _ "index item"])

lemma selectStep_pickStep:
  "selectStep (map sentence acc, map index acc) item
     = (map sentence (pickStep acc item), map index (pickStep acc item))"
proof (cases "\<not> tooClose (map index acc) item \<and> length acc < 5")
  case True
  then have "index item \<notin> set (map index acc)"
    using tooClose_member by blast
  then have "setAdd (index item) (map index acc) = map index acc @ [index item]"
    by (simp add: setAdd_def)
  with True show ?thesis
    by (simp add: selectStep_def pickStep_def)
next
  case False
  then show ?thesis
    by (auto simp: selectStep_def pickStep_def)
qed

lemma foldl_selectStep:
  "foldl selectStep (map sentence acc, map index acc) items
     = (map sentence (foldl pickStep acc items), map index (foldl pickStep acc items))"
proof (induction items arbitrary: acc)
  case Nil
  show ?case by simp
next
  case (Cons x xs)
  show ?case
    by (simp add: selectStep_pickStep Cons.IH)
qed

lemma selectLoop_picked:
  "selectLoop items = (map sentence (pickedItems items), map index (pickedItems items))"
  using foldl_selectStep [of "[]" items] by (simp add: selectLoop_def pickedItems_def)

lemma pickStep_length: "length acc \<le> 5 \<Longrightarrow> length (pickStep acc item) \<le> 5"
  by (simp add: pickStep_def)

lemma foldl_pickStep_length: "length acc \<le> 5 \<Longrightarrow> length (foldl pickStep acc items) \<le> 5"
  by (induction items arbitrary: acc) (simp_all add: pickStep_length)

lemma foldl_pickStep_set: "set (foldl pickStep acc items) \<subseteq> set acc \<union> set items"
proof (induction items arbitrary: acc)
  case Nil
  show ?case by simp
next
  case (Cons x xs)
  have "set (pickStep acc x) \<subseteq> set acc \<union> {x}"
    by (auto simp: pickStep_def)
  with Cons.IH [of "pickStep acc x"] show ?case by auto
qed

lemma foldl_pickStep_nonempty: "acc \<noteq> [] \<Longrightarrow> foldl pickStep acc items \<noteq> []"
  by (induction items arbitrary: acc) (simp_all add: pickStep_def)

lemma pickedItems_Cons: "pickedItems (x # xs) = foldl pickStep [x] xs"
  by (simp add: pickedItems_def pickStep_def tooClose_def)

lemma foldl_pickStep_prefix: "prefix acc (foldl pickStep acc items)"
proof (induction items arbitrary: acc)
  case Nil
  show ?case by simp
next
  case (Cons x xs)
  have "prefix acc (pickStep acc x)"
    by (simp add: pickStep_def)
  with Cons.IH [of "pickStep acc x"] show ?case
    by (auto intro: prefix_order.trans)
qed

lemma farApart_iff:
  "farApart used \<longleftrightarrow> (\<forall>i\<in>set used. \<forall>j\<in>set used. i \<noteq> j \<longrightarrow> 3 \<le> \<bar>int i - int j\<bar>)"
  by (auto simp: farApart_def list_all_iff)

lemma pickStep_far:
  assumes "farApart (map index acc)"
  shows "farApart (map index (pickStep acc item))"
proof (cases "\<not> tooClose (map index acc) item \<and> length acc < 5")
  case True
  then have far: "\<forall>j\<in>set (map index acc). \<not> \<bar>int (index item) - int j\<bar> < 3"
    by (simp add: tooClose_def list_ex_iff)
  have "pickStep acc item = acc @ [item]"
    using True by (simp add: pickStep_def)
  with assms far show ?thesis
    by (fastforce simp: farApart_iff)
next
  case False
  with assms show ?thesis by (auto simp: pickStep_def)
qed

lemma foldl_pickStep_far:
  "farApart (map index acc) \<Longrightarrow> farApart (map index (foldl pickStep acc items))"
  by (induction items arbitrary: acc) (simp_all add: pickStep_far)

lemma pickStep_distinct:
  assumes "distinct (map index acc)"
  shows "distinct (map index (pickStep acc item))"
proof (cases "\<not> tooClose (map index acc) item \<and> length acc < 5")
  case True
  then have "index item \<notin> set (map index acc)"
    using tooClose_member by blast
  with assms True show ?thesis by (simp add: pickStep_def)
next
  case False
  with assms show ?thesis by (auto simp: pickStep_def)
qed

lemma foldl_pickStep_distinct:
  "distinct (map index acc) \<Longrightarrow> distinct (map index (foldl pickStep acc items))"
  by (induction items arbitrary: acc) (simp_all add: pickStep_distinct)

lemma foldl_pickStep_sorted:
  "sorted_wrt R (acc @ items) \<Longrightarrow> sorted_wrt R (foldl pickStep acc items)"
proof (induction items arbitrary: acc)
  case Nil
  then show ?case by simp
next
  case (Cons x xs)
  have "sorted_wrt R (pickStep acc x @ xs)"
    using Cons.prems by (auto simp: pickStep_def sorted_wrt_append)
  then show ?case
    using Cons.IH by simp
qed

lemma set_insertSorted: "set (insertSorted x ys) = insert x (set ys)"
  by (induction ys) auto

lemma set_sortScored: "set (sortScored xs) = set xs"
  by (induction xs) (auto simp: set_insertSorted)

lemma length_insertSorted: "length (insertSorted x ys) = Suc (length ys)"
  by (induction ys) auto

lemma length_sortScored: "length (sortScored xs) = length xs"
  by (induction xs) (auto simp: length_insertSorted)

lemma before_trans: "before a b \<Longrightarrow> before b c \<Longrightarrow> before a c"
  by (auto simp: before_def)

lemma compare_before: "index x \<noteq> index y \<Longrightarrow> compareScored x y \<le> 0 \<longleftrightarrow> before x y"
  by (auto simp: compareScored_def before_def)

lemma not_before: "index x \<noteq> index y \<Longrightarrow> \<not> before x y \<Longrightarrow> before y x"
  by (auto simp: before_def)

lemma sorted_insertSorted:
  assumes "sorted_wrt before ys" and "index x \<notin> index ` set ys"
  shows "sorted_wrt before (insertSorted x ys)"
  using assms
proof (induction ys)
  case Nil
  show ?case by simp
next
  case (Cons y ys)
  have ne: "index x \<noteq> index y"
    using Cons.prems by auto
  show ?case
  proof (cases "compareScored x y \<le> 0")
    case True
    then have "before x y"
      using ne by (simp add: compare_before)
    then have "\<forall>z\<in>set (y # ys). before x z"
      using Cons.prems(1) before_trans by auto
    with True Cons.prems(1) show ?thesis by simp
  next
    case False
    then have "before y x"
      using ne not_before [of x y] by (simp add: compare_before)
    with False Cons show ?thesis
      by (auto simp: set_insertSorted)
  qed
qed

lemma sorted_sortScored:
  "distinct (map index xs) \<Longrightarrow> sorted_wrt before (sortScored xs)"
proof (induction xs)
  case Nil
  show ?case by simp
next
  case (Cons x xs)
  then show ?case
    by (auto simp: set_sortScored intro!: sorted_insertSorted)
qed

lemma map_index_scored: "map index (scoredSentences ss) = [0 ..< length ss]"
  by (auto simp: scoredSentences_def scoreSentence_def intro!: nth_equalityI)

lemma map_sentence_scored: "map sentence (scoredSentences ss) = ss"
  by (auto simp: scoredSentences_def scoreSentence_def intro!: nth_equalityI)

lemma scored_item:
  assumes "x \<in> set (scoredSentences ss)"
  shows "index x < length ss \<and> sentence x = ss ! index x"
proof -
  from assms obtain k where k: "k < length ss" and x: "x = scoredSentences ss ! k"
    by (auto simp: in_set_conv_nth scoredSentences_def)
  then show ?thesis
    by (simp add: scoredSentences_def scoreSentence_def)
qed

lemma greedy_picked:
  "greedySelection ss =
     (map sentence (pickedItems (sortScored (scoredSentences ss))),
      map index (pickedItems (sortScored (scoredSentences ss))))"
  by (simp add: greedySelection_def selectLoop_picked)

lemma picked_subset: "set (pickedItems (sortScored (scoredSentences ss))) \<subseteq> set (scoredSentences ss)"
  using foldl_pickStep_set [of "[]" "sortScored (scoredSentences ss)"]
  by (simp add: pickedItems_def set_sortScored)

lemma picked_length: "length (pickedItems items) \<le> 5"
  using foldl_pickStep_length [of "[]" items] by (simp add: pickedItems_def)

lemma picked_far: "farApart (map index (pickedItems items))"
  using foldl_pickStep_far [of "[]" items] by (simp add: pickedItems_def farApart_def)

lemma picked_sorted: "sorted_wrt before (pickedItems (sortScored (scoredSentences ss)))"
proof -
  have "distinct (map index (scoredSentences ss))"
    by (simp add: map_index_scored)
  then have "sorted_wrt before (sortScored (scoredSentences ss))"
    by (rule sorted_sortScored)
  then show ?thesis
    using foldl_pickStep_sorted [of before "[]" "sortScored (scoredSentences ss)"]
    by (simp add: pickedItems_def)
qed

lemma picked_nonempty: "items \<noteq> [] \<Longrightarrow> pickedItems items \<noteq> []"
  by (cases items) (simp_all add: pickedItems_Cons foldl_pickStep_nonempty)

lemma picked_hd: "items \<noteq> [] \<Longrightarrow> hd (pickedItems items) = hd items"
proof (cases items)
  case Nil
  assume "items \<noteq> []"
  with Nil show ?thesis by simp
next
  case (Cons x xs)
  have "prefix [x] (foldl pickStep [x] xs)"
    by (rule foldl_pickStep_prefix)
  then show ?thesis
    using Cons by (auto simp: pickedItems_Cons prefix_def)
qed

lemma length_filterBoolean: "length (filterBoolean xs) \<le> length xs"
  by (induction xs rule: filterBoolean.induct) auto

lemma length_removeDuplicates: "length (removeDuplicates arr) \<le> length arr"
proof -
  have "length (removeDuplicates arr) \<le> length (zip arr [0 ..< length arr])"
    unfolding removeDuplicates_def length_map by (rule length_filter_le)
  then show ?thesis by simp
qed

lemma length_fallbackSelection: "length (fallbackSelection ss) \<le> 5"
proof -
  have "length (fallbackIndices (length ss)) \<le> 5"
    unfolding fallbackIndices_def
    by (rule order_trans [OF length_removeDuplicates]) simp
  moreover have "length (fallbackSelection ss) \<le> length (fallbackIndices (length ss))"
    unfolding fallbackSelection_def
    by (rule order_trans [OF length_filterBoolean]) simp
  ultimately show ?thesis by simp
qed

lemma scored_nonempty: "ss \<noteq> [] \<Longrightarrow> sortScored (scoredSentences ss) \<noteq> []"
  using length_sortScored [of "scoredSentences ss"] map_index_scored [of ss]
  by (metis length_0_conv length_map length_upt minus_nat.diff_0)

lemma key_points_render:
  assumes "keyPointSentences transcript \<noteq> []" and "title \<noteq> []"
  shows "generateKeyPointsSummary (Str transcript) (Str title)
      = renderKeyPoints (fst (greedySelection (keyPointSentences transcript)))"
proof -
  let ?ss = "keyPointSentences transcript"
  have "pickedItems (sortScored (scoredSentences ?ss)) \<noteq> []"
    using assms(1) by (simp add: picked_nonempty scored_nonempty)
  then have g: "fst (greedySelection ?ss) \<noteq> []"
    by (simp add: greedy_picked)
  then have s: "selectedSentences ?ss = fst (greedySelection ?ss)"
    by (simp add: selectedSentences_def Let_def)
  have tr: "transcript \<noteq> []"
    using assms(1) by (auto simp: keyPointSentences_def splitSentences_def trim_def)
  show ?thesis
    using assms g s tr by (simp add: generateKeyPointsSummary_def Let_def)
qed

section \<open>The score and the word budget against their wording\<close>

lemma indicators_distinct: "distinct keyPointIndicators"
  by code_simp

lemma indicators_lower: "list_all (\<lambda>k. toLowerCase k = k) keyPointIndicators"
  by code_simp

lemma keywordMatches_spec: "keywordMatches s = specKeywordCount s"
proof -
  let ?P = "\<lambda>k. includesStr (toLowerCase s) k"
  have low: "\<forall>k\<in>set keyPointIndicators. toLowerCase k = k"
    using indicators_lower by (simp add: list_all_iff)
  then have "{k \<in> set keyPointIndicators. includesStr (toLowerCase s) (toLowerCase k)}
      = set (filter ?P keyPointIndicators)"
    by auto
  moreover have "card (set (filter ?P keyPointIndicators)) = length (filter ?P keyPointIndicators)"
    using indicators_distinct by (intro distinct_card) simp
  ultimately show ?thesis
    unfolding keywordMatches_def specKeywordCount_def by simp
qed

lemma floor_tenths: "\<lfloor>(of_nat n :: rat) * (of_nat k / 10)\<rfloor> = int ((10 * k * n) div 100)"
proof -
  have "(of_nat n :: rat) * (of_nat k / 10) = of_int (int (k * n)) / of_int 10"
    by simp
  then have "\<lfloor>(of_nat n :: rat) * (of_nat k / 10)\<rfloor> = int (k * n) div 10"
    by (simp only: floor_divide_of_int_eq)
  also have "\<dots> = int ((10 * k * n) div 100)"
    by (simp add: zdiv_int)
  finally show ?thesis .
qed

lemma targetLength_spec: "targetLength n = int (specTarget n)"
  using floor_tenths [of n 4] floor_tenths [of n 3] floor_tenths [of n 2]
  by (simp add: targetLength_def specTarget_def min_def)

section \<open>Evaluation on sample inputs\<close>

lemma lower_short: "toLowerCase ''short but comprehensive'' = ''short but comprehensive''"
  by code_simp

lemma lower_detailed: "toLowerCase ''detailed analysis please'' = ''detailed analysis please''"
  by code_simp

lemma birds_trim: "trim ''A talk about birds and bees.'' = ''A talk about birds and bees.''"
  by (simp add: trim_def isSpace_def)

lemma birds_marker:
  "\<not> includesStr ''A talk about birds and bees.'' ''No transcript available for this video''"
  by simp

lemma talk_sentences:
  "keyPointSentences talk =
     [''This is important'', ''We discuss three points'', ''First, clarity matters'',
      ''Second, brevity helps'', ''Finally, remember the main idea'']"
  unfolding talk_def by code_simp

lemma talk_scores:
  "map score (scoredSentences
     [''This is important'', ''We discuss three points'', ''First, clarity matters'',
      ''Second, brevity helps'', ''Finally, remember the main idea'']) = [5, 0, 3, 3, 9]"
  by code_simp

lemma talk_greedy:
  "greedySelection
     [''This is important'', ''We discuss three points'', ''First, clarity matters'',
      ''Second, brevity helps'', ''Finally, remember the main idea'']
   = ([''Finally, remember the main idea'', ''This is important''], [4, 0])"
  by code_simp

lemma talk_render:
  "renderKeyPoints [''Finally, remember the main idea'', ''This is important'']
     = ''## Key Points'' @ [CHR 0x0A, CHR 0x0A] @ ''1. Finally, remember the main idea''
       @ [CHR 0x0A] @ ''2. This is important''"
  by code_simp

lemma lecture_sentences:
  "keyPointSentences lecture =
     [''Alpha beta gamma delta'', ''Bravo charlie delta echo'', ''Charlie delta echo golf'',
      ''This one is important'']"
  unfolding lecture_def by code_simp

lemma lecture_scores:
  "map score (scoredSentences
     [''Alpha beta gamma delta'', ''Bravo charlie delta echo'', ''Charlie delta echo golf'',
      ''This one is important'']) = [2, 0, 1, 3]"
  by code_simp

lemma lecture_greedy:
  "greedySelection
     [''Alpha beta gamma delta'', ''Bravo charlie delta echo'', ''Charlie delta echo golf'',
      ''This one is important'']
   = ([''This one is important'', ''Alpha beta gamma delta''], [3, 0])"
  by code_simp

lemma talk_spec_score: "specKeywordCount ''Finally, remember the main idea'' = 3"
  unfolding keywordMatches_spec [symmetric] by code_simp

lemma birds_words: "wordCount ''A talk about birds and bees.'' = 6"
  by code_simp

lemma birds_draft:
  "draftSummary ''A talk about birds and bees.''
     = ''A talk about birds and bees. A talk about birds and bees. A talk about birds and bees''"
  by code_simp

lemma birds_cut:
  "joinWith '' '' (take 2 (splitOn CHR '' ''
      ''A talk about birds and bees. A talk about birds and bees. A talk about birds and bees''))
     = ''A talk''"
  by code_simp

lemma target_six: "specTarget 6 = 2"
  by code_simp

section \<open>The tool entry point\<close>

text \<open>
  C1 (amended): for every transcript that passes the availability check and every
  non-empty title, a guidance string containing "detailed" gives a record whose
  \<open>summary_type\<close> is "guided"; for the literal guidance "detailed analysis please" the
  summary of that record is the detailed summary.
\<close>

theorem detailed_guidance_is_guided:
  assumes "trim transcript \<noteq> []"
    and "\<not> includesStr transcript ''No transcript available for this video''"
    and "title \<noteq> []"
    and "includesStr (toLowerCase guidance) ''detailed''"
  shows "summaryTypeOf (execute (Str transcript) (Str title) (Str guidance)) = Some ''guided''
    \<and> execute (Str transcript) (Str title) (Str ''detailed analysis please'')
        = Inr \<lparr> summary = generateDetailedSummary (Str transcript) (Str title),
                summary_type = ''guided'' \<rparr>"
proof -
  have g: "guidance \<noteq> []"
    using assms(4) by (auto simp: toLowerCase_def)
  have t: "transcript \<noteq> []"
    using assms(1) by (auto simp: trim_def)
  have a: "summaryTypeOf (execute (Str transcript) (Str title) (Str guidance)) = Some ''guided''"
    using assms(1,2) g t by (simp add: execute_def summaryTypeOf_def)
  have "generateGuidedSummary (Str transcript) (Str title) (Str ''detailed analysis please'')
      = generateDetailedSummary (Str transcript) (Str title)"
    using t assms(3) unfolding generateGuidedSummary_def Let_def strOf.simps lower_detailed
    by simp
  then have b: "execute (Str transcript) (Str title) (Str ''detailed analysis please'')
        = Inr \<lparr> summary = generateDetailedSummary (Str transcript) (Str title),
                summary_type = ''guided'' \<rparr>"
    using assms(1,2) t by (simp add: execute_def)
  from a b show ?thesis by simp
qed

theorem detailed_guidance_is_guided_witness:
  "summaryTypeOf (execute (Str ''A talk about birds and bees.'') (Str ''Talk'')
      (Str ''detailed analysis please'')) = Some ''guided''
   \<and> execute (Str ''A talk about birds and bees.'') (Str ''Talk'') (Str ''detailed analysis please'')
        = Inr \<lparr> summary = generateDetailedSummary (Str ''A talk about birds and bees.'') (Str ''Talk''),
                summary_type = ''guided'' \<rparr>"
proof -
  have h1: "trim ''A talk about birds and bees.'' \<noteq> []"
    by (simp add: birds_trim)
  have h3: "''Talk'' \<noteq> []"
    by simp
  have h4: "includesStr (toLowerCase ''detailed analysis please'') ''detailed''"
    unfolding lower_detailed by simp
  show ?thesis
    by (rule detailed_guidance_is_guided [OF h1 birds_marker h3 h4])
qed

text \<open>
  C1 as stated fails: on the literal guidance "detailed analysis please" the label of
  the record is "guided", not "detailed".
\<close>

theorem detailed_guidance_counterexample:
  "summaryTypeOf (execute (Str ''A talk about birds and bees.'') (Str ''Talk'')
      (Str ''detailed analysis please'')) = Some ''guided''
   \<and> summaryTypeOf (execute (Str ''A talk about birds and bees.'') (Str ''Talk'')
      (Str ''detailed analysis please'')) \<noteq> Some ''detailed''"
  by (simp add: execute_def summaryTypeOf_def birds_trim)

text \<open>
  C2: a title that is missing or not a string should give a record labelled
  "unavailable". With a valid transcript and the empty title the code returns the
  invalid-title message labelled "key_points", and labelled "guided" when guidance is
  given.
\<close>

theorem execute_invalid_title:
  "execute (Str ''A talk about birds and bees.'') (Str []) Undefined
     = Inr \<lparr> summary = ''Unable to generate summary: invalid video title'',
             summary_type = ''key_points'' \<rparr>
   \<and> execute (Str ''A talk about birds and bees.'') Undefined (Str ''brief'')
     = Inr \<lparr> summary = ''Unable to generate summary: invalid video title'',
             summary_type = ''guided'' \<rparr>"
  by (simp add: execute_def generateKeyPointsSummary_def generateGuidedSummary_def birds_trim)

text \<open>
  C3: when the transcript is missing (or any other falsy value), empty after trimming
  (the empty string, or white space and line terminators only), or contains the marker
  phrase, the call returns the fixed unavailable record, whatever the title and the
  guidance are, and it does not fail.
\<close>

theorem execute_unavailable:
  assumes "\<not> truthy transcript
     \<or> (isString transcript \<and> (trim (strOf transcript) = []
          \<or> includesStr (strOf transcript) ''No transcript available for this video''))"
  shows "execute transcript video_title summary_guidance = Inr unavailableResult
    \<and> summaryTypeOf (execute transcript video_title summary_guidance) = Some ''unavailable''"
  using assms by (auto simp: execute_def summaryTypeOf_def unavailableResult_def)

theorem execute_unavailable_witness:
  "execute (Str ''No transcript available for this video.'') (Num 7) (Bool True)
     = Inr unavailableResult
   \<and> execute (Str [CHR '' '', CHR 0x09, CHR 0xA0, CHR 0x0A]) (Str ''X'') (Str ''brief'')
     = Inr unavailableResult
   \<and> execute (Str []) (Str ''X'') Undefined = Inr unavailableResult
   \<and> execute Undefined Undefined (Str ''brief'') = Inr unavailableResult"
proof -
  have marker: "\<not> truthy (Str ''No transcript available for this video.'')
     \<or> (isString (Str ''No transcript available for this video.'')
        \<and> (trim (strOf (Str ''No transcript available for this video.'')) = []
          \<or> includesStr (strOf (Str ''No transcript available for this video.''))
               ''No transcript available for this video''))"
    by simp
  have blank: "\<not> truthy (Str [CHR '' '', CHR 0x09, CHR 0xA0, CHR 0x0A])
     \<or> (isString (Str [CHR '' '', CHR 0x09, CHR 0xA0, CHR 0x0A])
        \<and> (trim (strOf (Str [CHR '' '', CHR 0x09, CHR 0xA0, CHR 0x0A])) = []
          \<or> includesStr (strOf (Str [CHR '' '', CHR 0x09, CHR 0xA0, CHR 0x0A]))
               ''No transcript available for this video''))"
    by (simp add: trim_def isSpace_def)
  have empty: "\<not> truthy (Str [])
     \<or> (isString (Str []) \<and> (trim (strOf (Str [])) = []
          \<or> includesStr (strOf (Str [])) ''No transcript available for this video''))"
    by simp
  have missing: "\<not> truthy Undefined
     \<or> (isString Undefined \<and> (trim (strOf Undefined) = []
          \<or> includesStr (strOf Undefined) ''No transcript available for this video''))"
    by simp
  from execute_unavailable [OF marker, of "Num 7" "Bool True"]
    execute_unavailable [OF blank, of "Str ''X''" "Str ''brief''"]
    execute_unavailable [OF empty, of "Str ''X''" Undefined]
    execute_unavailable [OF missing, of Undefined "Str ''brief''"]
  show ?thesis by blast
qed

text \<open>
  C7: for valid arguments the guided summary is the one of the first keyword group, in
  the order (brief, short, overview), (detailed, comprehensive, analysis), (key, points,
  bullet), that has a keyword occurring in the lower-cased guidance; the guidance
  "short but comprehensive" gives the key-points summary.
\<close>

theorem guided_precedence:
  assumes "transcript \<noteq> []" and "title \<noteq> []" and "guidance \<noteq> []"
  shows "generateGuidedSummary (Str transcript) (Str title) (Str guidance) =
           (case selectMode guidance of
              KeyPointsMode \<Rightarrow> generateKeyPointsSummary (Str transcript) (Str title)
            | DetailedMode \<Rightarrow> generateDetailedSummary (Str transcript) (Str title)
            | GuidedMode \<Rightarrow> ''## Summary (Based on: '' @ guidance @ '')'' @ [CHR 0x0A, CHR 0x0A]
                @ generateDetailedSummary (Str transcript) (Str title))
         \<and> generateGuidedSummary (Str transcript) (Str title) (Str ''short but comprehensive'')
             = generateKeyPointsSummary (Str transcript) (Str title)"
proof -
  have "includesStr ''short but comprehensive'' ''short''"
    by simp
  then have lit: "generateGuidedSummary (Str transcript) (Str title) (Str ''short but comprehensive'')
             = generateKeyPointsSummary (Str transcript) (Str title)"
    using assms unfolding generateGuidedSummary_def Let_def strOf.simps lower_short
    by simp
  have gen: "generateGuidedSummary (Str transcript) (Str title) (Str guidance) =
           (case selectMode guidance of
              KeyPointsMode \<Rightarrow> generateKeyPointsSummary (Str transcript) (Str title)
            | DetailedMode \<Rightarrow> generateDetailedSummary (Str transcript) (Str title)
            | GuidedMode \<Rightarrow> ''## Summary (Based on: '' @ guidance @ '')'' @ [CHR 0x0A, CHR 0x0A]
                @ generateDetailedSummary (Str transcript) (Str title))"
    using assms
    by (simp add: generateGuidedSummary_def selectMode_def guidanceGroups_def Let_def)
  from gen lit show ?thesis by blast
qed

theorem guided_precedence_witness:
  "selectMode ''short but comprehensive'' = KeyPointsMode
   \<and> generateGuidedSummary (Str ''A talk about birds and bees.'') (Str ''Talk'')
        (Str ''short but comprehensive'')
      = generateKeyPointsSummary (Str ''A talk about birds and bees.'') (Str ''Talk'')"
proof -
  have m: "selectMode ''short but comprehensive'' = KeyPointsMode"
    unfolding selectMode_def guidanceGroups_def lower_short by simp
  show ?thesis
    using guided_precedence [of "''A talk about birds and bees.''" "''Talk''"
        "''short but comprehensive''"] m
    by simp
qed

section \<open>Key-point selection\<close>

text \<open>
  C4: for every transcript the key-points summary selects at most 5 sentences: the
  selection loop keeps at most 5, the evenly spread fallback has at most 5, the
  first-three fallback has at most 3, and so has \<open>selectedSentences\<close> at most 5.
\<close>

theorem key_points_at_most_five:
  "length (fst (greedySelection (keyPointSentences transcript))) \<le> 5
   \<and> length (fallbackSelection (keyPointSentences transcript)) \<le> 5
   \<and> length (take 3 (keyPointSentences transcript)) \<le> 3
   \<and> length (selectedSentences (keyPointSentences transcript)) \<le> 5"
proof -
  let ?ss = "keyPointSentences transcript"
  have g: "length (fst (greedySelection ?ss)) \<le> 5"
    by (simp add: greedy_picked picked_length)
  have f: "length (fallbackSelection ?ss) \<le> 5"
    by (rule length_fallbackSelection)
  have s: "length (selectedSentences ?ss) \<le> 5"
    using g f by (simp add: selectedSentences_def Let_def)
  from g f s show ?thesis by simp
qed

theorem key_points_at_most_five_witness:
  "length (fst (greedySelection (keyPointSentences talk))) \<le> 5
   \<and> length (fallbackSelection (keyPointSentences talk)) \<le> 5
   \<and> length (take 3 (keyPointSentences talk)) \<le> 3
   \<and> length (selectedSentences (keyPointSentences talk)) \<le> 5"
  by (rule key_points_at_most_five)

text \<open>
  C5 (amended): for every transcript, any two different indices that the selection loop
  has picked differ by at least 3; each picked index is a position of the filtered
  sentence list, and the selected sentences are the sentences at the picked indices, in
  the same order.
\<close>

theorem greedy_indices_three_apart:
  "(\<forall>i\<in>set (snd (greedySelection (keyPointSentences transcript))).
      \<forall>j\<in>set (snd (greedySelection (keyPointSentences transcript))).
        i \<noteq> j \<longrightarrow> 3 \<le> \<bar>int i - int j\<bar>)
   \<and> list_all (\<lambda>i. i < length (keyPointSentences transcript))
         (snd (greedySelection (keyPointSentences transcript)))
   \<and> fst (greedySelection (keyPointSentences transcript))
       = map (\<lambda>i. keyPointSentences transcript ! i)
           (snd (greedySelection (keyPointSentences transcript)))"
proof -
  let ?ss = "keyPointSentences transcript"
  let ?p = "pickedItems (sortScored (scoredSentences ?ss))"
  have far: "farApart (snd (greedySelection ?ss))"
    by (simp add: greedy_picked picked_far)
  have item: "\<forall>x\<in>set ?p. index x < length ?ss \<and> sentence x = ?ss ! index x"
    using picked_subset [of ?ss] scored_item [of _ ?ss] by blast
  then have bound: "list_all (\<lambda>i. i < length ?ss) (snd (greedySelection ?ss))"
    by (simp add: greedy_picked list_all_iff)
  have sel: "fst (greedySelection ?ss) = map (\<lambda>i. ?ss ! i) (snd (greedySelection ?ss))"
    using item by (simp add: greedy_picked)
  from far bound sel show ?thesis
    by (simp add: farApart_iff)
qed

theorem greedy_indices_three_apart_witness:
  "snd (greedySelection (keyPointSentences talk)) = [4, 0]
   \<and> (4::nat) \<noteq> 0 \<and> 3 \<le> \<bar>int 4 - int 0\<bar>
   \<and> fst (greedySelection (keyPointSentences talk))
       = [keyPointSentences talk ! 4, keyPointSentences talk ! 0]"
  using greedy_indices_three_apart [of talk]
  by (simp add: talk_sentences talk_greedy)

text \<open>
  C5 as stated, with "within 3" read as a distance of at most 3, fails: the distance
  test of the loop is \<^verbatim>\<open>Math.abs(item.index - prevIndex) < 3\<close>, and the indices 3 and 0 of
  the four-sentence sample, exactly 3 apart, are both picked.
\<close>

theorem three_apart_counterexample:
  "snd (greedySelection (keyPointSentences lecture)) = [3, 0]
   \<and> fst (greedySelection (keyPointSentences lecture))
       = [''This one is important'', ''Alpha beta gamma delta'']
   \<and> \<bar>int 3 - int 0\<bar> \<le> 3"
  by (simp add: lecture_sentences lecture_greedy)

text \<open>
  C8 (amended): for every transcript with at least one retained sentence, the numbered
  list presents the selected sentences in the order the selection loop picked them,
  which is the order of the sorted list: descending score, equal scores by ascending
  original index.
\<close>

theorem key_points_in_selection_order:
  assumes "keyPointSentences transcript \<noteq> []" and "title \<noteq> []"
  shows "\<exists>picked.
      generateKeyPointsSummary (Str transcript) (Str title)
        = renderKeyPoints (map sentence picked)
    \<and> snd (greedySelection (keyPointSentences transcript)) = map index picked
    \<and> set picked \<subseteq> set (scoredSentences (keyPointSentences transcript))
    \<and> sorted_wrt before picked"
proof -
  let ?ss = "keyPointSentences transcript"
  let ?p = "pickedItems (sortScored (scoredSentences ?ss))"
  have "generateKeyPointsSummary (Str transcript) (Str title) = renderKeyPoints (map sentence ?p)"
    using key_points_render [OF assms] by (simp add: greedy_picked)
  moreover have "snd (greedySelection ?ss) = map index ?p"
    by (simp add: greedy_picked)
  ultimately show ?thesis
    using picked_subset [of ?ss] picked_sorted [of ?ss] by blast
qed

theorem key_points_in_selection_order_witness:
  "\<exists>picked.
      generateKeyPointsSummary (Str talk) (Str ''Talk'') = renderKeyPoints (map sentence picked)
    \<and> [4, 0] = map index picked
    \<and> set picked \<subseteq> set (scoredSentences (keyPointSentences talk))
    \<and> sorted_wrt before picked"
proof -
  have h1: "keyPointSentences talk \<noteq> []"
    by (simp add: talk_sentences)
  have h2: "''Talk'' \<noteq> []"
    by simp
  have g: "snd (greedySelection (keyPointSentences talk)) = [4, 0]"
    by (simp add: talk_sentences talk_greedy)
  show ?thesis
    using key_points_in_selection_order [OF h1 h2] unfolding g .
qed

text \<open>
  C8 as stated fails: the emitted list is not in ascending original index. On the
  scenario of the specification the sentence at index 4 is listed before the one at
  index 0.
\<close>

theorem index_order_counterexample:
  "snd (greedySelection (keyPointSentences talk)) = [4, 0]
   \<and> \<not> sorted (snd (greedySelection (keyPointSentences talk)))
   \<and> generateKeyPointsSummary (Str talk) (Str ''Talk'')
       = ''## Key Points'' @ [CHR 0x0A, CHR 0x0A] @ ''1. Finally, remember the main idea''
         @ [CHR 0x0A] @ ''2. This is important''"
proof -
  have "keyPointSentences talk \<noteq> []"
    by (simp add: talk_sentences)
  then have "generateKeyPointsSummary (Str talk) (Str ''Talk'')
      = renderKeyPoints (fst (greedySelection (keyPointSentences talk)))"
    by (rule key_points_render) simp
  then show ?thesis
    by (simp add: talk_sentences talk_greedy talk_render)
qed

text \<open>
  C10: when the length filter retains at least one sentence, the selection loop selects
  at least one: the head of the sorted list is accepted. So \<open>selectedSentences\<close> is the
  selection of the loop, the evenly spread fallback adds nothing, and the summary is the
  numbered list of that selection, never the first-three fallback.
\<close>

theorem greedy_never_empty:
  assumes "keyPointSentences transcript \<noteq> []" and "title \<noteq> []"
  shows "fst (greedySelection (keyPointSentences transcript)) \<noteq> []
    \<and> hd (fst (greedySelection (keyPointSentences transcript)))
        = sentence (hd (sortScored (scoredSentences (keyPointSentences transcript))))
    \<and> selectedSentences (keyPointSentences transcript)
        = fst (greedySelection (keyPointSentences transcript))
    \<and> generateKeyPointsSummary (Str transcript) (Str title)
        = renderKeyPoints (fst (greedySelection (keyPointSentences transcript)))"
proof -
  let ?ss = "keyPointSentences transcript"
  let ?items = "sortScored (scoredSentences ?ss)"
  have items: "?items \<noteq> []"
    using assms(1) by (rule scored_nonempty)
  then have p: "pickedItems ?items \<noteq> []"
    by (rule picked_nonempty)
  then have g: "fst (greedySelection ?ss) \<noteq> []"
    by (simp add: greedy_picked)
  have h: "hd (fst (greedySelection ?ss)) = sentence (hd ?items)"
    using p items by (simp add: greedy_picked hd_map picked_hd)
  have s: "selectedSentences ?ss = fst (greedySelection ?ss)"
    using g by (simp add: selectedSentences_def Let_def)
  from g h s key_points_render [OF assms] show ?thesis by simp
qed

theorem greedy_never_empty_witness:
  "fst (greedySelection (keyPointSentences lecture)) \<noteq> []
    \<and> hd (fst (greedySelection (keyPointSentences lecture)))
        = sentence (hd (sortScored (scoredSentences (keyPointSentences lecture))))
    \<and> selectedSentences (keyPointSentences lecture)
        = fst (greedySelection (keyPointSentences lecture))
    \<and> generateKeyPointsSummary (Str lecture) (Str ''Talk'')
        = renderKeyPoints (fst (greedySelection (keyPointSentences lecture)))"
proof -
  have h1: "keyPointSentences lecture \<noteq> []"
    by (simp add: lecture_sentences)
  have h2: "''Talk'' \<noteq> []"
    by simp
  show ?thesis
    by (rule greedy_never_empty [OF h1 h2])
qed

section \<open>Scoring\<close>

text \<open>
  C6: the score of the filtered sentence at index \<open>i\<close> among \<open>n\<close> retained sentences is
  3 times the number of distinct keyword phrases that occur in it when case is ignored,
  plus 2 if \<open>i/n < 0.2\<close>, else 2 if \<open>i/n > 0.8\<close>, else 1 if \<open>0.4 < i/n < 0.6\<close>, plus 1 if
  its space-split word count is between 8 and 25 inclusive.
\<close>

theorem score_formula:
  assumes "i < length (keyPointSentences transcript)"
  shows "scoredSentences (keyPointSentences transcript) ! i =
     \<lparr> sentence = keyPointSentences transcript ! i,
       score = specScore (length (keyPointSentences transcript)) i
                 (keyPointSentences transcript ! i),
       index = i \<rparr>"
  using assms
  by (simp add: scoredSentences_def scoreSentence_def specScore_def keywordMatches_spec
      positionBonus_def positionRatio_def lengthBonus_def wordCount_def Let_def)

theorem score_formula_witness:
  "scoredSentences (keyPointSentences talk) ! 4 =
     \<lparr> sentence = ''Finally, remember the main idea'', score = 3 * 3 + 0 + 0, index = 4 \<rparr>"
proof -
  have h: "4 < length (keyPointSentences talk)"
    by (simp add: talk_sentences)
  show ?thesis
    using score_formula [OF h] by (simp add: talk_sentences specScore_def talk_spec_score)
qed

section \<open>The detailed summary\<close>

text \<open>
  C9: the target word budget is 40 percent of the space-split word count below 500
  words, the smaller of 400 and 30 percent from 500 to 1999 words, and the smaller of
  500 and 20 percent from 2000 words on, each percentage floored; the draft is cut to
  its first target words, with "..." appended exactly when the cut text does not end
  with a period, if and only if the draft is longer than 5 times the target in
  characters.
\<close>

theorem detailed_budget_and_truncation:
  assumes "transcript \<noteq> []" and "title \<noteq> []"
  shows "targetLength (wordCount transcript) = int (specTarget (wordCount transcript))
    \<and> generateDetailedSummary (Str transcript) (Str title) =
        ''## Summary'' @ [CHR 0x0A, CHR 0x0A] @
        (if length (draftSummary transcript) > specTarget (wordCount transcript) * 5
         then (if endsWith (joinWith '' '' (take (specTarget (wordCount transcript))
                                 (splitOn CHR '' '' (draftSummary transcript)))) ''.''
               then joinWith '' '' (take (specTarget (wordCount transcript))
                                 (splitOn CHR '' '' (draftSummary transcript)))
               else joinWith '' '' (take (specTarget (wordCount transcript))
                                 (splitOn CHR '' '' (draftSummary transcript))) @ ''...'')
         else draftSummary transcript)"
proof -
  have lt: "(int (specTarget (wordCount transcript)) * 5 < int (length (draftSummary transcript)))
      = (specTarget (wordCount transcript) * 5 < length (draftSummary transcript))"
    by linarith
  show ?thesis
    using assms
    by (simp add: generateDetailedSummary_def truncateSummary_def targetLength_spec slice_def
        Let_def lt)
qed

theorem detailed_budget_and_truncation_witness:
  "targetLength (wordCount ''A talk about birds and bees.'') = 2
   \<and> generateDetailedSummary (Str ''A talk about birds and bees.'') (Str ''Talk'')
       = ''## Summary'' @ [CHR 0x0A, CHR 0x0A] @ ''A talk...''"
proof -
  have h1: "''A talk about birds and bees.'' \<noteq> []" and h2: "''Talk'' \<noteq> []"
    by simp_all
  have e: "\<not> endsWith ''A talk'' ''.''"
    by (simp add: endsWith_def suffix_def)
  show ?thesis
    using detailed_budget_and_truncation [OF h1 h2] e
    unfolding birds_words target_six birds_draft birds_cut
    by simp
qed

end
